theory Spec2Isabelle
  imports Complex_Main "HOL-Library.Multiset" "HOL-Library.Product_Lexorder"
begin

section \<open>The search aggregator ("backbone") of aio-abs-providers\<close>

text \<open>
  The development follows the \<^verbatim>\<open>GET /search\<close> handler of the backbone server (the revision
  with \<^verbatim>\<open>pickFieldAndSource\<close>): scoring, type filter, per-provider cap, threshold,
  metadata fetching, ranking and the optional merged "best result".

  Conventions of the embedding.
  \<^item> A JavaScript number is a \<^typ>\<open>real\<close>: arithmetic is exact, there is no NaN and no
    rounding. \<^verbatim>\<open>x || 0\<close> on a number is therefore the identity.
  \<^item> A string is a list of \<^typ>\<open>char\<close>, that is of code units below U+0100; a string with
    other code units is outside the model.
  \<^item> A property that may be absent (\<^verbatim>\<open>undefined\<close> or \<^verbatim>\<open>null\<close>) is an \<^typ>\<open>'a option\<close>.
    String properties are strings, list properties are arrays of strings, as the provider
    template in the README lays them down; an item built otherwise is outside the model.
  \<^item> \<^verbatim>\<open>Array.prototype.sort\<close> is stable; for a comparator that is a total preorder its
    result is the stable insertion sort written out below.
  \<^item> \<^verbatim>\<open>stringSimilarity.compareTwoStrings\<close> comes from an npm package and is a parameter
    \<open>cmp\<close> of the scorer.
\<close>

subsection \<open>JavaScript helpers\<close>

text \<open>
  \<^verbatim>\<open>String.prototype.toLowerCase\<close> and \<^verbatim>\<open>trim\<close>. A \<^typ>\<open>char\<close> is the code unit of its
  number, U+0000 to U+00FF. Of these the letters with a lowercase form are A to Z
  (65 to 90), \<^verbatim>\<open>U+00C0\<close> to \<^verbatim>\<open>U+00D6\<close> (192 to 214) and \<^verbatim>\<open>U+00D8\<close> to \<^verbatim>\<open>U+00DE\<close> (216 to 222),
  each 32 below its lowercase form; the multiplication sign 215 and the letters 223 and
  255 are left alone, and no mapping depends on the neighbouring characters. The white
  space and line terminators that \<^verbatim>\<open>trim\<close> strips are tab, line feed, vertical tab, form
  feed, carriage return (9 to 13), the space 32 and the no-break space 160.
\<close>

definition lower_char :: "char \<Rightarrow> char" where
  "lower_char c =
     (let n = (of_char c :: nat)
      in if (65 \<le> n \<and> n \<le> 90) \<or> (192 \<le> n \<and> n \<le> 214) \<or> (216 \<le> n \<and> n \<le> 222)
         then char_of (n + 32) else c)"

definition toLowerCase :: "string \<Rightarrow> string" where
  "toLowerCase s = map lower_char s"

definition is_space :: "char \<Rightarrow> bool" where
  "is_space c = (let n = (of_char c :: nat) in n = 32 \<or> n = 160 \<or> (9 \<le> n \<and> n \<le> 13))"

definition trim :: "string \<Rightarrow> string" where
  "trim s = rev (dropWhile is_space (rev (dropWhile is_space s)))"

text \<open>Truthiness of an optional string: \<^verbatim>\<open>undefined\<close>, \<^verbatim>\<open>null\<close> and \<^verbatim>\<open>''\<close> are falsy.\<close>

definition truthy :: "string option \<Rightarrow> bool" where
  "truthy v = (case v of None \<Rightarrow> False | Some s \<Rightarrow> s \<noteq> [])"

text \<open>
  A property read by name (\<^verbatim>\<open>item[field]\<close>) yields a JavaScript value; \<open>Undefined\<close> also
  stands for \<^verbatim>\<open>null\<close>. \<open>truthyV\<close> is JavaScript's truthiness: arrays and objects are truthy
  even when empty.
\<close>

datatype jsval = Undefined | Str string | Num real | Arr "string list" | Obj "(string \<times> string) list"

fun truthyV :: "jsval \<Rightarrow> bool" where
  "truthyV Undefined = False"
| "truthyV (Str s) = (s \<noteq> [])"
| "truthyV (Num r) = (r \<noteq> 0)"
| "truthyV (Arr xs) = True"
| "truthyV (Obj kvs) = True"

text \<open>\<^verbatim>\<open>Math.max(x, ...xs)\<close> of a non-empty argument list.\<close>

definition Math_max :: "real \<Rightarrow> real list \<Rightarrow> real" where
  "Math_max x xs = fold max xs x"

text \<open>
  \<^verbatim>\<open>xs.slice().sort(c)\<close> for a comparator \<open>c\<close>: \<open>x\<close> goes before the first \<open>y\<close> with
  \<open>c x y \<le> 0\<close>, so elements that compare equal keep their input order.
\<close>

fun insertBy :: "('a \<Rightarrow> 'a \<Rightarrow> real) \<Rightarrow> 'a \<Rightarrow> 'a list \<Rightarrow> 'a list" where
  "insertBy c x [] = [x]"
| "insertBy c x (y # ys) = (if c x y \<le> 0 then x # y # ys else y # insertBy c x ys)"

definition sortBy :: "('a \<Rightarrow> 'a \<Rightarrow> real) \<Rightarrow> 'a list \<Rightarrow> 'a list" where
  "sortBy c xs = foldr (insertBy c) xs []"

subsection \<open>Configuration\<close>

record provider_cfg =
  enabled :: bool
  priority :: "int option"
  maxResults :: "int option"
  concurrency :: "nat option"

record global_cfg =
  titleWeight :: "real option"
  similarityThreshold :: "real option"
  allowBooks :: "bool option"
  allowAudiobooks :: "bool option"
  mergeBestResults :: bool
  mergePreferences :: "string \<Rightarrow> string option"

record config =
  global :: "global_cfg option"
  providers :: "string \<Rightarrow> provider_cfg option"

subsection \<open>Items\<close>

text \<open>
  One record for a snippet, a scored candidate, a full result and the merged result: the
  handler passes the same object shape along and adds properties. \<open>provider\<close>,
  \<open>providerPriority\<close>, \<open>fullFetched\<close>, \<open>alt_id\<close>, \<open>mergedFrom\<close> and \<open>mergedFieldSources\<close>
  are the properties \<^verbatim>\<open>_provider\<close>, \<^verbatim>\<open>_providerPriority\<close>, \<^verbatim>\<open>_fullFetched\<close>, \<^verbatim>\<open>_id\<close>,
  \<^verbatim>\<open>_mergedFrom\<close> and \<^verbatim>\<open>_mergedFieldSources\<close>; \<open>item_id\<close>, \<open>item_type\<close> and \<open>item_format\<close>
  are \<^verbatim>\<open>id\<close>, \<^verbatim>\<open>type\<close> and \<^verbatim>\<open>format\<close>.
\<close>

datatype field_source = Provider string | Providers "string list"

record item =
  title :: "string option"
  subtitle :: "string option"
  authors :: "string list option"
  narrator :: "string option"
  description :: "string option"
  cover :: "string option"
  item_type :: "string option"
  item_format :: "string option"
  url :: "string option"
  item_id :: "string option"
  alt_id :: "string option"
  languages :: "string list option"
  publisher :: "string option"
  publishedDate :: "string option"
  series :: jsval
  genres :: "string list option"
  tags :: "string list option"
  identifiers :: "(string \<times> string) list option"
  source :: "(string \<times> string) list option"
  rating :: "real option"
  duration :: "real option"
  isbn :: "string option"
  asin :: "string option"
  language :: "string option"
  provider :: string
  providerPriority :: "int option"
  similarity :: real
  fullFetched :: bool
  mergedFrom :: "(string \<times> string option) list option"
  mergedFieldSources :: "(string \<times> field_source) list"

subsection \<open>Scoring (\<^verbatim>\<open>scored\<close>)\<close>

definition cleanedQuery :: "string \<Rightarrow> string" where
  "cleanedQuery q = toLowerCase (trim q)"

definition cleanedAuthor :: "string option \<Rightarrow> string" where
  "cleanedAuthor author = (if truthy author then toLowerCase (trim (the author)) else [])"

definition titleWeightFraction :: "config \<Rightarrow> real" where
  "titleWeightFraction cfg =
     (case global cfg of
        None \<Rightarrow> 6 / 10
      | Some g \<Rightarrow> (case titleWeight g of None \<Rightarrow> 6 / 10 | Some w \<Rightarrow> w / 100))"

definition authorWeight :: "config \<Rightarrow> real" where
  "authorWeight cfg = 1 - titleWeightFraction cfg"

definition titleSimilarity :: "(string \<Rightarrow> string \<Rightarrow> real) \<Rightarrow> string \<Rightarrow> item \<Rightarrow> real" where
  "titleSimilarity cmp q m =
     cmp (toLowerCase (case title m of None \<Rightarrow> [] | Some t \<Rightarrow> t)) (cleanedQuery q)"

definition combinedSimilarity ::
  "(string \<Rightarrow> string \<Rightarrow> real) \<Rightarrow> config \<Rightarrow> string \<Rightarrow> string option \<Rightarrow> item \<Rightarrow> real" where
  "combinedSimilarity cmp cfg q author m =
     (case authors m of
        Some (a # rest) \<Rightarrow>
          if cleanedAuthor author \<noteq> [] then
            titleSimilarity cmp q m * titleWeightFraction cfg
            + Math_max (cmp (toLowerCase a) (cleanedAuthor author))
                (map (\<lambda>b. cmp (toLowerCase b) (cleanedAuthor author)) rest)
              * authorWeight cfg
          else titleSimilarity cmp q m
      | _ \<Rightarrow> titleSimilarity cmp q m)"

definition scored ::
  "(string \<Rightarrow> string \<Rightarrow> real) \<Rightarrow> config \<Rightarrow> string \<Rightarrow> string option \<Rightarrow> item list \<Rightarrow> item list" where
  "scored cmp cfg q author combined =
     map (\<lambda>m. m\<lparr>similarity := combinedSimilarity cmp cfg q author m\<rparr>) combined"

text \<open>
  The lubimyczytac provider's \<^verbatim>\<open>adjustedMetadata\<close>: an item without an ISBN has its
  similarity multiplied by 0.99.
\<close>

definition lookup :: "(string \<times> 'v) list option \<Rightarrow> string \<Rightarrow> 'v option" where
  "lookup obj k = (case obj of None \<Rightarrow> None | Some kvs \<Rightarrow> map_of kvs k)"

definition adjustedSimilarity :: "item \<Rightarrow> real" where
  "adjustedSimilarity m =
     (if \<not> truthy (lookup (identifiers m) ''isbn'') then similarity m * (99 / 100)
      else similarity m)"

subsection \<open>Type filter, per-provider cap, threshold\<close>

definition isAudio :: "item \<Rightarrow> bool" where
  "isAudio m =
     (item_type m = Some ''audiobook''
      \<or> (truthy (item_format m) \<and> item_format m = Some ''audiobook''))"

definition allowBooksFlag :: "config \<Rightarrow> bool" where
  "allowBooksFlag cfg =
     (case global cfg of None \<Rightarrow> True
      | Some g \<Rightarrow> (case allowBooks g of None \<Rightarrow> True | Some b \<Rightarrow> b))"

definition allowAudiobooksFlag :: "config \<Rightarrow> bool" where
  "allowAudiobooksFlag cfg =
     (case global cfg of None \<Rightarrow> True
      | Some g \<Rightarrow> (case allowAudiobooks g of None \<Rightarrow> True | Some b \<Rightarrow> b))"

definition filtered :: "config \<Rightarrow> item list \<Rightarrow> item list" where
  "filtered cfg sc =
     filter (\<lambda>m. if isAudio m \<and> \<not> allowAudiobooksFlag cfg then False
                 else if \<not> isAudio m \<and> \<not> allowBooksFlag cfg then False
                 else True) sc"

definition thresholdPct :: "config \<Rightarrow> real" where
  "thresholdPct cfg =
     (case global cfg of None \<Rightarrow> 0
      | Some g \<Rightarrow> (case similarityThreshold g of None \<Rightarrow> 0 | Some t \<Rightarrow> t))"

definition threshold :: "config \<Rightarrow> real" where
  "threshold cfg = max 0 (min 100 (thresholdPct cfg)) / 100"

text \<open>
  \<^verbatim>\<open>reduce((acc, m) => { (acc[m._provider] = acc[m._provider] || []).push(m); ... }, {})\<close>
  followed by \<^verbatim>\<open>Object.entries\<close>: an object keeps its string keys in insertion order, so the
  grouping is an association list in order of first occurrence. (Keys that are canonical
  array indices would be listed first; provider names are directory names.)
\<close>

fun pushGroup :: "(string \<times> item list) list \<Rightarrow> item \<Rightarrow> (string \<times> item list) list" where
  "pushGroup [] m = [(provider m, [m])]"
| "pushGroup ((p, ms) # acc) m =
     (if p = provider m then (p, ms @ [m]) # acc else (p, ms) # pushGroup acc m)"

definition groupByProvider :: "item list \<Rightarrow> (string \<times> item list) list" where
  "groupByProvider xs = foldl pushGroup [] xs"

definition simDesc :: "item \<Rightarrow> item \<Rightarrow> real" where
  "simDesc a b = similarity b - similarity a"

definition maxResultsOf :: "config \<Rightarrow> string \<Rightarrow> int" where
  "maxResultsOf cfg providerName =
     (case providers cfg providerName of None \<Rightarrow> 0
      | Some pc \<Rightarrow> (case maxResults pc of None \<Rightarrow> 0 | Some k \<Rightarrow> k))"

definition capGroup :: "config \<Rightarrow> string \<times> item list \<Rightarrow> string \<times> item list" where
  "capGroup cfg g =
     (case g of (providerName, matches) \<Rightarrow>
        (let mx = maxResultsOf cfg providerName;
             sorted = sortBy simDesc matches
         in (providerName, if mx > 0 then take (nat mx) sorted else sorted)))"

definition cappedByProvider :: "config \<Rightarrow> item list \<Rightarrow> (string \<times> item list) list" where
  "cappedByProvider cfg fl = map (capGroup cfg) (groupByProvider fl)"

definition capped :: "config \<Rightarrow> item list \<Rightarrow> item list" where
  "capped cfg fl = concat (map snd (cappedByProvider cfg fl))"

definition candidates :: "config \<Rightarrow> item list \<Rightarrow> item list" where
  "candidates cfg sc = filter (\<lambda>m. similarity m \<ge> threshold cfg) (capped cfg (filtered cfg sc))"

definition byProvider :: "config \<Rightarrow> item list \<Rightarrow> (string \<times> item list) list" where
  "byProvider cfg sc = groupByProvider (candidates cfg sc)"

subsection \<open>The worker pool \<^verbatim>\<open>mapWithConcurrency\<close>\<close>

text \<open>
  \<^verbatim>\<open>min(limit, items.length)\<close> async workers share the cursor \<^verbatim>\<open>i\<close>. JavaScript runs each
  worker without interruption up to its next \<^verbatim>\<open>await\<close>, so a worker is either waiting for
  the iterator's promise of one index or has returned. One step of the pool is the
  settling of one awaited promise: the worker stores the result (or \<^verbatim>\<open>null\<close> after a
  rejection), takes the next index, and either calls the iterator on it or returns. The
  order in which promises settle is not fixed by the program; it is the schedule, a list of
  worker numbers. \<open>calls\<close> logs the indices the iterator has been called on.
\<close>

datatype 'b outcome = Throws | Returns 'b

datatype 'b slot = Hole | Null | Value 'b

datatype wstate = Awaiting nat | Finished

record 'b pool =
  next_i :: nat
  results :: "'b slot list"
  workers :: "wstate list"
  calls :: "nat list"

definition grab :: "nat \<Rightarrow> 'b pool \<Rightarrow> wstate \<times> 'b pool" where
  "grab n s =
     (let idx = next_i s; s' = s\<lparr>next_i := next_i s + 1\<rparr>
      in if idx \<ge> n then (Finished, s') else (Awaiting idx, s'\<lparr>calls := calls s @ [idx]\<rparr>))"

definition spawn :: "nat \<Rightarrow> 'b pool \<Rightarrow> 'b pool" where
  "spawn n s = (case grab n s of (w, s') \<Rightarrow> s'\<lparr>workers := workers s' @ [w]\<rparr>)"

definition start :: "'a list \<Rightarrow> nat \<Rightarrow> 'b pool" where
  "start items limit =
     (spawn (length items) ^^ (min limit (length items)))
       \<lparr>next_i = 0, results = replicate (length items) Hole, workers = [], calls = []\<rparr>"

definition store :: "('a \<Rightarrow> 'b outcome) \<Rightarrow> 'a \<Rightarrow> 'b slot" where
  "store iteratorFn x = (case iteratorFn x of Throws \<Rightarrow> Null | Returns v \<Rightarrow> Value v)"

definition settle :: "('a \<Rightarrow> 'b outcome) \<Rightarrow> 'a list \<Rightarrow> nat \<Rightarrow> 'b pool \<Rightarrow> 'b pool" where
  "settle iteratorFn items w s =
     (if w < length (workers s) then
        (case workers s ! w of
           Finished \<Rightarrow> s
         | Awaiting idx \<Rightarrow>
             (case grab (length items)
                     (s\<lparr>results := (results s)[idx := store iteratorFn (items ! idx)]\<rparr>) of
                (w', s') \<Rightarrow> s'\<lparr>workers := (workers s')[w := w']\<rparr>))
      else s)"

definition run :: "('a \<Rightarrow> 'b outcome) \<Rightarrow> 'a list \<Rightarrow> nat list \<Rightarrow> 'b pool \<Rightarrow> 'b pool" where
  "run iteratorFn items sched s = foldl (\<lambda>s w. settle iteratorFn items w s) s sched"

definition allFinished :: "'b pool \<Rightarrow> bool" where
  "allFinished s = list_all (\<lambda>w. w = Finished) (workers s)"

text \<open>
  The promise returned by \<^verbatim>\<open>mapWithConcurrency\<close> resolves when all workers have returned;
  \<open>None\<close> says that after this schedule it is still pending.
\<close>

definition mapWithConcurrency ::
  "nat list \<Rightarrow> 'a list \<Rightarrow> ('a \<Rightarrow> 'b outcome) \<Rightarrow> nat \<Rightarrow> 'b slot list option" where
  "mapWithConcurrency sched items iteratorFn limit =
     (let s = run iteratorFn items sched (start items limit)
      in if allFinished s then Some (results s) else None)"

definition iteratorCalls :: "nat list \<Rightarrow> 'a list \<Rightarrow> ('a \<Rightarrow> 'b outcome) \<Rightarrow> nat \<Rightarrow> nat list" where
  "iteratorCalls sched items iteratorFn limit =
     calls (run iteratorFn items sched (start items limit))"

subsection \<open>Fetching full metadata (\<^verbatim>\<open>fullFetchPromises\<close>)\<close>








subsection \<open>Ranking\<close>

definition priorityOf :: "item \<Rightarrow> int" where
  "priorityOf a = (case providerPriority a of None \<Rightarrow> 0 | Some p \<Rightarrow> p)"

definition audioFlag :: "item \<Rightarrow> int" where
  "audioFlag a = (if isAudio a then 1 else 0)"

definition rankCmp :: "item \<Rightarrow> item \<Rightarrow> real" where
  "rankCmp a b =
     (if similarity b \<noteq> similarity a then similarity b - similarity a
      else if audioFlag b \<noteq> audioFlag a then of_int (audioFlag b - audioFlag a)
      else of_int (priorityOf b - priorityOf a))"

definition rank :: "item list \<Rightarrow> item list" where
  "rank rs = sortBy rankCmp rs"

subsection \<open>The merged best result\<close>

definition EPS :: real where
  "EPS = 1 / 1000000"

text \<open>\<open>topGroup\<close> is only computed for a non-empty result list; \<open>topSim\<close> is the first
  result's similarity.\<close>

fun topGroup :: "item list \<Rightarrow> item list" where
  "topGroup [] = []"
| "topGroup (t # rest) =
     filter (\<lambda>fr. \<bar>similarity fr - similarity t\<bar> \<le> EPS) (t # rest)"

definition strV :: "string option \<Rightarrow> jsval" where
  "strV v = (case v of None \<Rightarrow> Undefined | Some s \<Rightarrow> Str s)"

definition numV :: "real option \<Rightarrow> jsval" where
  "numV v = (case v of None \<Rightarrow> Undefined | Some r \<Rightarrow> Num r)"

definition arrV :: "string list option \<Rightarrow> jsval" where
  "arrV v = (case v of None \<Rightarrow> Undefined | Some xs \<Rightarrow> Arr xs)"

definition objV :: "(string \<times> string) list option \<Rightarrow> jsval" where
  "objV v = (case v of None \<Rightarrow> Undefined | Some kvs \<Rightarrow> Obj kvs)"

text \<open>\<^verbatim>\<open>item[f]\<close> for a property name \<open>f\<close>.\<close>

definition getProp :: "item \<Rightarrow> string \<Rightarrow> jsval" where
  "getProp i f =
     (if f = ''title'' then strV (title i)
      else if f = ''subtitle'' then strV (subtitle i)
      else if f = ''authors'' then arrV (authors i)
      else if f = ''narrator'' then strV (narrator i)
      else if f = ''description'' then strV (description i)
      else if f = ''cover'' then strV (cover i)
      else if f = ''type'' then strV (item_type i)
      else if f = ''format'' then strV (item_format i)
      else if f = ''url'' then strV (url i)
      else if f = ''id'' then strV (item_id i)
      else if f = ''_id'' then strV (alt_id i)
      else if f = ''languages'' then arrV (languages i)
      else if f = ''publisher'' then strV (publisher i)
      else if f = ''publishedDate'' then strV (publishedDate i)
      else if f = ''series'' then series i
      else if f = ''genres'' then arrV (genres i)
      else if f = ''tags'' then arrV (tags i)
      else if f = ''identifiers'' then objV (identifiers i)
      else if f = ''source'' then objV (source i)
      else if f = ''rating'' then numV (rating i)
      else if f = ''duration'' then numV (duration i)
      else if f = ''isbn'' then strV (isbn i)
      else if f = ''asin'' then strV (asin i)
      else if f = ''language'' then strV (language i)
      else Undefined)"

definition countNonEmpty :: "item \<Rightarrow> nat" where
  "countNonEmpty i =
     length (filter (\<lambda>f. truthyV (getProp i f))
       [''title'', ''authors'', ''narrator'', ''description'', ''cover'', ''type'', ''url'',
        ''id'', ''languages'', ''publisher'', ''publishedDate'', ''series'', ''genres'',
        ''tags'', ''identifiers''])"

definition sortedGroupCmp :: "item \<Rightarrow> item \<Rightarrow> real" where
  "sortedGroupCmp a b =
     (if priorityOf b \<noteq> priorityOf a then of_int (priorityOf b - priorityOf a)
      else of_int (int (countNonEmpty b) - int (countNonEmpty a)))"

definition sortedGroup :: "item list \<Rightarrow> item list" where
  "sortedGroup tg = sortBy sortedGroupCmp tg"

definition nonEmptyList :: "'a list option \<Rightarrow> bool" where
  "nonEmptyList v = (case v of Some (x # xs) \<Rightarrow> True | _ \<Rightarrow> False)"

definition hasField :: "item \<Rightarrow> string \<Rightarrow> bool" where
  "hasField i f =
     (if f = ''language'' then nonEmptyList (languages i)
      else if f = ''identifiers'' then nonEmptyList (identifiers i)
      else (case getProp i f of
              Arr v \<Rightarrow> v \<noteq> []
            | Undefined \<Rightarrow> False
            | Str s \<Rightarrow> s \<noteq> []
            | _ \<Rightarrow> True))"

definition getFieldValue :: "item \<Rightarrow> string \<Rightarrow> jsval" where
  "getFieldValue i f =
     (if f = ''language'' then (case languages i of Some (l # ls) \<Rightarrow> Str l | _ \<Rightarrow> Undefined)
      else getProp i f)"

text \<open>The preferred provider's member with a value for the field, if a preference is set.\<close>

definition preferredMember ::
  "(string \<Rightarrow> string option) \<Rightarrow> string \<Rightarrow> (item \<Rightarrow> bool) \<Rightarrow> item list \<Rightarrow> item option" where
  "preferredMember prefs f has sg =
     (if truthy (prefs f) then find (\<lambda>i. provider i = the (prefs f) \<and> has i) sg else None)"

definition pickFieldAndSource ::
  "(string \<Rightarrow> string option) \<Rightarrow> item list \<Rightarrow> string \<Rightarrow> jsval \<times> string option" where
  "pickFieldAndSource prefs sg f =
     (case preferredMember prefs f (\<lambda>i. hasField i f) sg of
        Some p \<Rightarrow> (getFieldValue p f, prefs f)
      | None \<Rightarrow>
          (case find (\<lambda>i. hasField i f) sg of
             Some contributor \<Rightarrow> (getFieldValue contributor f, Some (provider contributor))
           | None \<Rightarrow> (Undefined, None)))"

definition pickIdentifierAndSource ::
  "(string \<Rightarrow> string option) \<Rightarrow> item list \<Rightarrow> string \<Rightarrow> string option \<times> string option" where
  "pickIdentifierAndSource prefs sg k =
     (case preferredMember prefs ''identifiers'' (\<lambda>i. truthy (lookup (identifiers i) k)) sg of
        Some p \<Rightarrow> (lookup (identifiers p) k, prefs ''identifiers'')
      | None \<Rightarrow>
          (case find (\<lambda>i. truthy (lookup (identifiers i) k)) sg of
             Some it \<Rightarrow> (lookup (identifiers it) k, Some (provider it))
           | None \<Rightarrow> (None, None)))"

definition pickLanguageAndSource ::
  "(string \<Rightarrow> string option) \<Rightarrow> item list \<Rightarrow> string option \<times> string option" where
  "pickLanguageAndSource prefs sg =
     (case preferredMember prefs ''language'' (\<lambda>i. nonEmptyList (languages i)) sg of
        Some p \<Rightarrow> (Some (hd (the (languages p))), prefs ''language'')
      | None \<Rightarrow>
          (case find (\<lambda>i. nonEmptyList (languages i)) sg of
             Some it \<Rightarrow> (Some (hd (the (languages it))), Some (provider it))
           | None \<Rightarrow> (None, None)))"


text \<open>\<open>coverPick\<close> returns the handler's \<^verbatim>\<open>coverValue\<close> and \<^verbatim>\<open>coverSource\<close>.\<close>

definition coverPick ::
  "(string \<Rightarrow> string option) \<Rightarrow> item list \<Rightarrow> jsval \<times> string option" where
  "coverPick prefs sg =
     (case pickFieldAndSource prefs sg ''cover'' of
        (coverValue, coverSource) \<Rightarrow>
          if \<not> truthyV coverValue then
            (case find (\<lambda>i. isAudio i \<and> truthy (cover i)) sg of
               Some audioCandidate \<Rightarrow> (strV (cover audioCandidate), Some (provider audioCandidate))
             | None \<Rightarrow> (coverValue, coverSource))
          else (coverValue, coverSource))"

text \<open>A JavaScript \<^verbatim>\<open>Set\<close> keeps insertion order; \<^verbatim>\<open>Array.from\<close> lists it.\<close>

definition setAdd :: "'a list \<Rightarrow> 'a \<Rightarrow> 'a list" where
  "setAdd acc x = (if x \<in> set acc then acc else acc @ [x])"

definition arrayFromSet :: "'a list \<Rightarrow> 'a list" where
  "arrayFromSet xs = foldl setAdd [] xs"

definition langsUnion :: "item list \<Rightarrow> string list" where
  "langsUnion sg =
     arrayFromSet (concat (map (\<lambda>it. case languages it of None \<Rightarrow> [] | Some ls \<Rightarrow> ls) sg))"

definition normalize :: "string \<Rightarrow> string" where
  "normalize s = toLowerCase (trim s)"

definition pickListPrefOrUnion ::
  "(string \<Rightarrow> string option) \<Rightarrow> item list \<Rightarrow> string \<Rightarrow> (item \<Rightarrow> string list option)
     \<Rightarrow> string list" where
  "pickListPrefOrUnion prefs sg f get =
     (case preferredMember prefs f (\<lambda>i. nonEmptyList (get i)) sg of
        Some p \<Rightarrow> the (get p)
      | None \<Rightarrow>
          arrayFromSet (filter (\<lambda>n. n \<noteq> [])
            (map normalize (concat (map (\<lambda>it. case get it of None \<Rightarrow> [] | Some vs \<Rightarrow> vs) sg)))))"

definition listSources ::
  "(string \<Rightarrow> string option) \<Rightarrow> item list \<Rightarrow> string \<Rightarrow> (item \<Rightarrow> bool) \<Rightarrow> field_source" where
  "listSources prefs sg f has =
     (if truthy (prefs f) then Provider (the (prefs f))
      else Providers (arrayFromSet (map provider (filter has sg))))"

definition seriesPresent :: "item \<Rightarrow> bool" where
  "seriesPresent i = (case series i of Arr xs \<Rightarrow> xs \<noteq> [] | v \<Rightarrow> truthyV v)"

text \<open>The loop over \<^verbatim>\<open>singleFields\<close> that records provenance.\<close>

definition singleFields :: "string list" where
  "singleFields = [''narrator'', ''publisher'', ''language'', ''subtitle'', ''duration'', ''url'',
     ''source'']"

definition contributes :: "string \<Rightarrow> item \<Rightarrow> bool" where
  "contributes f i = (truthyV (getProp i f) \<or> (f = ''language'' \<and> nonEmptyList (languages i)))"

definition singleFieldSource ::
  "(string \<Rightarrow> string option) \<Rightarrow> item list \<Rightarrow> string \<Rightarrow> (string \<times> field_source) list" where
  "singleFieldSource prefs sg f =
     (case preferredMember prefs f (contributes f) sg of
        Some p \<Rightarrow> [(f, Provider (the (prefs f)))]
      | None \<Rightarrow>
          (case find (contributes f) sg of
             Some contributor \<Rightarrow> [(f, Provider (provider contributor))]
           | None \<Rightarrow> []))"

text \<open>Identifiers: the first truthy value of each key, in the order of the sorted group.\<close>

definition addIdentifier :: "(string \<times> string) list \<Rightarrow> string \<times> string \<Rightarrow> (string \<times> string) list" where
  "addIdentifier acc kv =
     (if \<not> truthy (map_of acc (fst kv)) \<and> snd kv \<noteq> [] then acc @ [kv] else acc)"

definition mergeIdentifiers :: "item list \<Rightarrow> (string \<times> string) list" where
  "mergeIdentifiers sg =
     foldl addIdentifier []
       (concat (map (\<lambda>it. case identifiers it of None \<Rightarrow> [] | Some kvs \<Rightarrow> kvs) sg))"

definition mergedFromOf :: "item list \<Rightarrow> (string \<times> string option) list" where
  "mergedFromOf tg =
     map (\<lambda>i. (provider i,
               if truthy (item_id i) then item_id i
               else if truthy (alt_id i) then alt_id i else None)) tg"

definition asStr :: "jsval \<Rightarrow> string" where
  "asStr v = (case v of Str s \<Rightarrow> s | _ \<Rightarrow> [])"

definition asList :: "jsval \<Rightarrow> string list" where
  "asList v = (case v of Arr xs \<Rightarrow> xs | _ \<Rightarrow> [])"

definition truthyStr :: "jsval \<Rightarrow> string option" where
  "truthyStr v = (case v of Str s \<Rightarrow> if s \<noteq> [] then Some s else None | _ \<Rightarrow> None)"

definition truthyNum :: "jsval \<Rightarrow> real option" where
  "truthyNum v = (case v of Num r \<Rightarrow> if r \<noteq> 0 then Some r else None | _ \<Rightarrow> None)"

definition orElse :: "string option \<Rightarrow> string option \<Rightarrow> string option" where
  "orElse a b = (if truthy a then a else b)"

text \<open>
  The merged object. The handler also sets \<^verbatim>\<open>publishedYear\<close>, \<^verbatim>\<open>series\<close> and
  \<^verbatim>\<open>seriesIndex\<close> (from \<^verbatim>\<open>publishedDate\<close>, \<^verbatim>\<open>series\<close> and \<^verbatim>\<open>seriesIndex\<close> of the sorted group);
  these three are not part of the record and the handler does not read them again. The
  value of \<^verbatim>\<open>merged.publishedYear\<close> is \<open>publishedYearOf\<close> below.
\<close>

definition buildMerged :: "(string \<Rightarrow> string option) \<Rightarrow> item list \<Rightarrow> item" where
  "buildMerged prefs fr =
     (let tg = topGroup fr;
          sg = sortedGroup tg;
          pick = (\<lambda>f. fst (pickFieldAndSource prefs sg f));
          pickId = (\<lambda>k. fst (pickIdentifierAndSource prefs sg k))
      in \<lparr>title = Some (asStr (pick ''title'')),
          subtitle = Some (asStr (pick ''subtitle'')),
          authors = Some (asList (pick ''authors'')),
          narrator = Some (asStr (pick ''narrator'')),
          description = Some (asStr (pick ''description'')),
          cover = truthyStr (fst (coverPick prefs sg)),
          item_type = Some (if truthyV (pick ''type'') then asStr (pick ''type'')
                            else if list_ex (\<lambda>i. item_type i = Some ''audiobook'') tg
                                 then ''audiobook'' else ''book''),
          item_format = None,
          url = Some (asStr (pick ''url'')),
          item_id = orElse (truthyStr (pick ''id''))
                      (orElse (pickId ''lubimyczytac'') (orElse (pickId ''audioteka'') (Some []))),
          alt_id = None,
          languages = Some (langsUnion sg),
          publisher = Some (asStr (pick ''publisher'')),
          publishedDate = None,
          series = Undefined,
          genres = Some (pickListPrefOrUnion prefs sg ''genres'' genres),
          tags = Some (pickListPrefOrUnion prefs sg ''tags'' tags),
          identifiers = Some (mergeIdentifiers sg),
          source = (case pick ''source'' of Obj kvs \<Rightarrow> Some kvs
                    | _ \<Rightarrow> Some [(''id'', ''merged''), (''description'', ''Merged result'')]),
          rating = truthyNum (pick ''rating''),
          duration = truthyNum (pick ''duration''),
          isbn = orElse (pickId ''isbn'') None,
          asin = orElse (pickId ''asin'') None,
          language = orElse (fst (pickLanguageAndSource prefs sg)) None,
          provider = ''merged'',
          providerPriority = Some (Max (set (map priorityOf tg)) + 1),
          similarity = similarity (hd fr),
          fullFetched = False,
          mergedFrom = Some (mergedFromOf tg),
          mergedFieldSources =
            [(''genres'', listSources prefs sg ''genres'' (\<lambda>i. nonEmptyList (genres i))),
             (''tags'', listSources prefs sg ''tags'' (\<lambda>i. nonEmptyList (tags i))),
             (''series'', listSources prefs sg ''series'' seriesPresent)]
            @ concat (map (singleFieldSource prefs sg) singleFields)\<rparr>)"


text \<open>\<^verbatim>\<open>xs.join('|')\<close>.\<close>

fun joinBar :: "string list \<Rightarrow> string" where
  "joinBar [] = []"
| "joinBar [x] = x"
| "joinBar (x # y # ys) = x @ ''|'' @ joinBar (y # ys)"

definition sameTitleAuthors :: "item \<Rightarrow> item \<Rightarrow> bool" where
  "sameTitleAuthors top0 merged =
     (title top0 = title merged \<and> authors top0 \<noteq> None \<and> authors merged \<noteq> None
      \<and> joinBar (the (authors top0)) = joinBar (the (authors merged)))"

definition mergedFields :: "string list" where
  "mergedFields = [''narrator'', ''description'', ''cover'', ''languages'', ''identifiers'',
     ''genres'', ''tags'']"

definition isArray :: "jsval \<Rightarrow> bool" where
  "isArray v = (case v of Arr xs \<Rightarrow> True | _ \<Rightarrow> False)"

definition topHasField :: "item \<Rightarrow> item \<Rightarrow> string \<Rightarrow> bool" where
  "topHasField top0 merged f =
     (if \<not> truthyV (getProp merged f) \<or> getProp merged f = Arr [] then True
      else if isArray (getProp merged f) then
        (case getProp top0 f of Arr (x # xs) \<Rightarrow> True | _ \<Rightarrow> False)
      else if f = ''identifiers'' then
        (case getProp top0 f of Obj (kv # kvs) \<Rightarrow> True | _ \<Rightarrow> False)
      else truthyV (getProp top0 f))"

definition topHasAllMergedFields :: "item \<Rightarrow> item \<Rightarrow> bool" where
  "topHasAllMergedFields top0 merged = list_all (topHasField top0 merged) mergedFields"

definition mergeEnabled :: "config \<Rightarrow> bool" where
  "mergeEnabled cfg = (case global cfg of None \<Rightarrow> False | Some g \<Rightarrow> mergeBestResults g)"

definition prefsOf :: "config \<Rightarrow> string \<Rightarrow> string option" where
  "prefsOf cfg = (case global cfg of None \<Rightarrow> (\<lambda>f. None) | Some g \<Rightarrow> mergePreferences g)"

text \<open>
  The \<^verbatim>\<open>try\<close> block around the merge: on values of the types of the \<open>item\<close> record none of
  its statements throws, so the \<^verbatim>\<open>catch\<close> branch has no counterpart here.
\<close>

definition mergeBest :: "config \<Rightarrow> item list \<Rightarrow> item list" where
  "mergeBest cfg fr =
     (if mergeEnabled cfg \<and> fr \<noteq> [] then
        (if length (topGroup fr) > 1 then
           (let merged = buildMerged (prefsOf cfg) fr; top0 = hd fr
            in if \<not> (sameTitleAuthors top0 merged \<and> topHasAllMergedFields top0 merged)
               then merged # fr else fr)
         else fr)
      else fr)"

text \<open>The \<^verbatim>\<open>matches\<close> of the response, before the final normalisation of author fields.\<close>

definition matches :: "config \<Rightarrow> item list \<Rightarrow> item list" where
  "matches cfg full = mergeBest cfg (rank full)"



subsection \<open>The scorer as the specification words it\<close>

text \<open>
  \<open>spec_score\<close> follows the specification's contract \<open>score(snippet, query, author,
  titleWeight)\<close>: the title similarity alone unless the author and the snippet's author
  list are both non-empty, otherwise the weighted sum with the best author similarity.
\<close>

definition spec_score ::
  "(string \<Rightarrow> string \<Rightarrow> real) \<Rightarrow> real \<Rightarrow> string \<Rightarrow> string \<Rightarrow> string \<Rightarrow> string list \<Rightarrow> real" where
  "spec_score sim tw query author ttl auths =
     (let titleSim = sim (toLowerCase ttl) (toLowerCase query) in
      if author \<noteq> [] \<and> auths \<noteq> [] then
        tw * titleSim
        + (1 - tw) * Max ((\<lambda>a. sim (toLowerCase a) (toLowerCase author)) ` set auths)
      else titleSim)"

subsection \<open>Notions used in the statements and proofs\<close>

text \<open>The three keys of the ranking comparator, and the two of the sorted tie group, as
  tuples under the lexicographic order.\<close>

definition rankKey :: "item \<Rightarrow> real \<times> int \<times> int" where
  "rankKey m = (- similarity m, - audioFlag m, - priorityOf m)"



text \<open>
  The member that the specification's rule designates for a field among the members \<open>sg\<close>
  of the tie group in resolution order, \<open>has\<close> telling which members have a value: the
  first member of the preferred provider that has one, if a preference is configured under
  \<open>key\<close> and there is such a member; otherwise the first member that has one.
\<close>

definition designated ::
  "(string \<Rightarrow> string option) \<Rightarrow> string \<Rightarrow> (item \<Rightarrow> bool) \<Rightarrow> item list \<Rightarrow> item option" where
  "designated prefs key has sg =
     (if truthy (prefs key) \<and> list_ex (\<lambda>i. provider i = the (prefs key) \<and> has i) sg
      then find (\<lambda>i. provider i = the (prefs key) \<and> has i) sg
      else find has sg)"




text \<open>
  The invariant of the pool: every worker waits for an index below the cursor; a slot
  holds the iterator's result, or is still empty and its index is not taken yet or some
  worker waits for it; a worker has returned only after the cursor passed the last index;
  the iterator has been called on the indices below the cursor, in order. \<open>potential\<close>
  bounds the number of steps left.
\<close>

definition pool_inv :: "('a \<Rightarrow> 'b outcome) \<Rightarrow> 'a list \<Rightarrow> 'b pool \<Rightarrow> bool" where
  "pool_inv f items s \<longleftrightarrow>
     length (results s) = length items
     \<and> (\<forall>w < length (workers s). \<forall>idx. workers s ! w = Awaiting idx
            \<longrightarrow> idx < length items \<and> idx < next_i s)
     \<and> (\<forall>idx < length items.
            results s ! idx = store f (items ! idx)
            \<or> (results s ! idx = Hole
                \<and> (next_i s \<le> idx \<or> (\<exists>w < length (workers s). workers s ! w = Awaiting idx))))
     \<and> ((\<exists>w < length (workers s). workers s ! w = Finished) \<longrightarrow> length items \<le> next_i s)
     \<and> calls s = [0 ..< min (next_i s) (length items)]"

definition potential :: "nat \<Rightarrow> 'b pool \<Rightarrow> nat" where
  "potential n s = (n - next_i s) + length (filter (\<lambda>w. w \<noteq> Finished) (workers s))"

subsection \<open>Example data\<close>

definition exact_match :: "string \<Rightarrow> string \<Rightarrow> real" where
  "exact_match a b = (if a = b then 1 else 0)"

definition cfg60 :: config where
  "cfg60 = \<lparr>global = Some \<lparr>titleWeight = Some 60, similarityThreshold = Some 50,
       allowBooks = None, allowAudiobooks = None, mergeBestResults = True,
       mergePreferences = (\<lambda>f. None)\<rparr>,
     providers = (\<lambda>p. None)\<rparr>"

definition blank :: item where
  "blank = \<lparr>title = None, subtitle = None, authors = None, narrator = None,
     description = None, cover = None, item_type = None, item_format = None, url = None,
     item_id = None, alt_id = None, languages = None, publisher = None,
     publishedDate = None, series = Undefined, genres = None, tags = None,
     identifiers = None, source = None, rating = None, duration = None, isbn = None,
     asin = None, language = None,
     provider = [], providerPriority = None, similarity = 0, fullFetched = False,
     mergedFrom = None, mergedFieldSources = []\<rparr>"

definition foundation :: item where
  "foundation = blank\<lparr>title := Some ''Foundation'', authors := Some [''Isaac Asimov'', ''asimov'']\<rparr>"

definition itemA :: item where
  "itemA = blank\<lparr>title := Some ''A'', provider := ''P'', similarity := 9 / 10\<rparr>"

definition itemB :: item where
  "itemB = blank\<lparr>title := Some ''B'', provider := ''P'', similarity := 9 / 10\<rparr>"

definition itemLow :: item where
  "itemLow = blank\<lparr>title := Some ''C'', provider := ''P'', similarity := 1 / 2\<rparr>"



definition cfgMerge :: config where
  "cfgMerge = \<lparr>global = Some \<lparr>titleWeight = Some 60, similarityThreshold = Some 50,
       allowBooks = None, allowAudiobooks = None, mergeBestResults = True,
       mergePreferences = (\<lambda>f. None)\<rparr>,
     providers = (\<lambda>p. None)\<rparr>"

definition fullA :: item where
  "fullA = blank\<lparr>title := Some ''Foundation'', authors := Some [''Isaac Asimov''],
     narrator := Some ''N'', description := Some ''D'', cover := Some ''c.jpg'',
     languages := Some [''pl''], genres := Some [''sf''], tags := Some [''classic''],
     item_id := Some ''1'',
     provider := ''A'', providerPriority := Some 10, similarity := 95 / 100\<rparr>"

definition fullB :: item where
  "fullB = fullA\<lparr>item_id := Some ''2'', provider := ''B'', providerPriority := Some 5\<rparr>"













definition tenfold :: "nat \<Rightarrow> nat outcome" where
  "tenfold x = (if x = 2 then Throws else Returns (10 * x))"





section \<open>Properties\<close>

subsection \<open>Scoring\<close>

lemma Math_max_Max: "Math_max x xs = Max (set (x # xs))"
  by (simp only: Math_max_def Max.set_eq_fold)

lemma toLowerCase_Nil_iff: "toLowerCase s = [] \<longleftrightarrow> s = []"
  by (simp add: toLowerCase_def)

lemma cleanedAuthor_eq:
  "cleanedAuthor author = toLowerCase (if truthy author then trim (the author) else [])"
  by (simp add: cleanedAuthor_def toLowerCase_def)

text \<open>
  Claim C2, as amended. For every snippet and query the score computed by the handler is
  the specification's score on the trimmed query and the trimmed author: the similarity of
  the lowercased title and the lowercased trimmed query when the trimmed author is empty
  (or no author is given) or the snippet's author list is empty (or missing), and otherwise
  \<open>titleWeight * titleSim + (1 - titleWeight) * authorSim\<close> with \<open>authorSim\<close> the maximum
  similarity of the lowercased trimmed author over the snippet's lowercased authors;
  \<open>titleWeight\<close> is the configured value divided by 100, and 0.6 when none is configured.
  The scorer is total: a missing title counts as the empty string and a missing author list
  as the empty list.
\<close>

theorem scoring_formula:
  "combinedSimilarity cmp cfg q author m =
     spec_score cmp (titleWeightFraction cfg) (trim q)
       (if truthy author then trim (the author) else [])
       (case title m of None \<Rightarrow> [] | Some t \<Rightarrow> t)
       (case authors m of None \<Rightarrow> [] | Some as \<Rightarrow> as)
   \<and> titleWeightFraction cfg =
       (case Option.bind (global cfg) titleWeight of None \<Rightarrow> 6 / 10 | Some w \<Rightarrow> w / 100)"
proof
  let ?au = "if truthy author then trim (the author) else []"
  have ca: "cleanedAuthor author = toLowerCase ?au" by (rule cleanedAuthor_eq)
  show "combinedSimilarity cmp cfg q author m =
     spec_score cmp (titleWeightFraction cfg) (trim q) ?au
       (case title m of None \<Rightarrow> [] | Some t \<Rightarrow> t)
       (case authors m of None \<Rightarrow> [] | Some as \<Rightarrow> as)"
  proof (cases "authors m")
    case None
    then show ?thesis
      by (simp add: combinedSimilarity_def spec_score_def titleSimilarity_def cleanedQuery_def)
  next
    case (Some as)
    show ?thesis
    proof (cases as)
      case Nil
      with Some show ?thesis
        by (simp add: combinedSimilarity_def spec_score_def titleSimilarity_def cleanedQuery_def)
    next
      case (Cons a rest)
      with Some show ?thesis
        unfolding combinedSimilarity_def spec_score_def titleSimilarity_def cleanedQuery_def
          authorWeight_def Math_max_Max ca
        by (simp add: toLowerCase_Nil_iff Let_def mult.commute del: Max_insert)
    qed
  qed
  show "titleWeightFraction cfg =
       (case Option.bind (global cfg) titleWeight of None \<Rightarrow> 6 / 10 | Some w \<Rightarrow> w / 100)"
    by (simp add: titleWeightFraction_def split: option.splits)
qed

text \<open>
  The claim as stated, with the query and the author as they come, fails. An author of
  three blanks is not empty, and the snippet has authors, so the claim's formula weighs in
  the author similarity (0 here) and gives 0.6; the handler trims the author to the empty
  string and scores by the title alone. A query with a leading blank differs from the
  title under the claim's formula, which gives 0; the handler trims it and gives 1.
\<close>

theorem scoring_untrimmed_counterexample:
  "titleWeightFraction cfg60 = 6 / 10
   \<and> title foundation = Some ''Foundation''
   \<and> authors foundation = Some [''Isaac Asimov'', ''asimov'']
   \<and> combinedSimilarity exact_match cfg60 ''Foundation'' (Some ''   '') foundation = 1
   \<and> spec_score exact_match (6 / 10) ''Foundation'' ''   '' ''Foundation''
        [''Isaac Asimov'', ''asimov''] = 6 / 10
   \<and> combinedSimilarity exact_match cfg60 '' Foundation'' None foundation = 1
   \<and> spec_score exact_match (6 / 10) '' Foundation'' [] ''Foundation''
        [''Isaac Asimov'', ''asimov''] = 0"
proof (intro conjI)
  have a: "cleanedAuthor (Some ''   '') = []" by code_simp
  have q: "cleanedQuery ''Foundation'' = ''foundation''"
    "cleanedQuery '' Foundation'' = ''foundation''"
    by code_simp+
  have l: "toLowerCase ''Foundation'' = ''foundation''"
     "toLowerCase ''Isaac Asimov'' = ''isaac asimov''" "toLowerCase ''asimov'' = ''asimov''"
     "toLowerCase ''   '' = ''   ''" "toLowerCase '' Foundation'' = '' foundation''"
    by code_simp+
  show "titleWeightFraction cfg60 = 6 / 10" by (simp add: titleWeightFraction_def cfg60_def)
  show "title foundation = Some ''Foundation''" by (simp add: foundation_def blank_def)
  show "authors foundation = Some [''Isaac Asimov'', ''asimov'']"
    by (simp add: foundation_def blank_def)
  show "combinedSimilarity exact_match cfg60 ''Foundation'' (Some ''   '') foundation = 1"
    by (simp add: combinedSimilarity_def titleSimilarity_def foundation_def blank_def a q l
         exact_match_def)
  show "combinedSimilarity exact_match cfg60 '' Foundation'' None foundation = 1"
    by (simp add: combinedSimilarity_def titleSimilarity_def foundation_def blank_def q l
         exact_match_def cleanedAuthor_def truthy_def)
  show "spec_score exact_match (6 / 10) ''Foundation'' ''   '' ''Foundation''
        [''Isaac Asimov'', ''asimov''] = 6 / 10"
    by (simp add: spec_score_def l exact_match_def)
  show "spec_score exact_match (6 / 10) '' Foundation'' [] ''Foundation''
        [''Isaac Asimov'', ''asimov''] = 0"
    by (simp add: spec_score_def l exact_match_def)
qed

lemma Math_max_bounds:
  assumes "0 \<le> x" "x \<le> 1" "\<forall>y\<in>set xs. 0 \<le> y \<and> y \<le> (1::real)"
  shows "0 \<le> Math_max x xs \<and> Math_max x xs \<le> 1"
  using assms by (induction xs arbitrary: x) (auto simp: Math_max_def)

lemma convex_unit:
  fixes t a w :: real
  assumes "0 \<le> t" "t \<le> 1" "0 \<le> a" "a \<le> 1" "0 \<le> w" "w \<le> 1"
  shows "0 \<le> t * w + a * (1 - w) \<and> t * w + a * (1 - w) \<le> 1"
proof
  show "0 \<le> t * w + a * (1 - w)" using assms by simp
  have "t * w \<le> 1 * w" using assms by (intro mult_right_mono) auto
  moreover have "a * (1 - w) \<le> 1 * (1 - w)" using assms by (intro mult_right_mono) auto
  ultimately show "t * w + a * (1 - w) \<le> 1" by simp
qed

lemma titleWeightFraction_unit:
  assumes "\<forall>g w. global cfg = Some g \<and> titleWeight g = Some w \<longrightarrow> 0 \<le> w \<and> w \<le> 100"
  shows "0 \<le> titleWeightFraction cfg \<and> titleWeightFraction cfg \<le> 1"
  using assms by (auto simp: titleWeightFraction_def split: option.splits)

lemma combinedSimilarity_unit:
  assumes cmp: "\<forall>a b. 0 \<le> cmp a b \<and> cmp a b \<le> 1"
    and tw: "\<forall>g w. global cfg = Some g \<and> titleWeight g = Some w \<longrightarrow> 0 \<le> w \<and> w \<le> 100"
  shows "0 \<le> combinedSimilarity cmp cfg q author m \<and> combinedSimilarity cmp cfg q author m \<le> 1"
proof -
  have w: "0 \<le> titleWeightFraction cfg" "titleWeightFraction cfg \<le> 1"
    using titleWeightFraction_unit[OF tw] by auto
  have t: "0 \<le> titleSimilarity cmp q m" "titleSimilarity cmp q m \<le> 1"
    using cmp by (auto simp: titleSimilarity_def)
  show ?thesis
  proof (cases "\<exists>a rest. authors m = Some (a # rest) \<and> cleanedAuthor author \<noteq> []")
    case True
    then obtain a rest where ar: "authors m = Some (a # rest)" "cleanedAuthor author \<noteq> []"
      by blast
    let ?b = "Math_max (cmp (toLowerCase a) (cleanedAuthor author))
                (map (\<lambda>b. cmp (toLowerCase b) (cleanedAuthor author)) rest)"
    have b: "0 \<le> ?b \<and> ?b \<le> 1"
      by (rule Math_max_bounds) (use cmp in auto)
    have "combinedSimilarity cmp cfg q author m
            = titleSimilarity cmp q m * titleWeightFraction cfg + ?b * (1 - titleWeightFraction cfg)"
      using ar by (simp add: combinedSimilarity_def authorWeight_def)
    then show ?thesis using convex_unit[OF t(1) t(2) _ _ w(1) w(2), of ?b] b by simp
  next
    case False
    then have "combinedSimilarity cmp cfg q author m = titleSimilarity cmp q m"
      by (auto simp: combinedSimilarity_def split: option.splits list.splits)
    then show ?thesis using t by simp
  qed
qed

text \<open>
  Claim C3. If the string metric returns values in \<open>[0,1]\<close> and a configured
  \<open>titleWeight\<close> lies in \<open>[0,100]\<close>, every scored snippet has its similarity in \<open>[0,1]\<close>,
  and so has the similarity that the lubimyczytac provider derives from it by multiplying
  with 0.99 when the ISBN is missing.
\<close>

theorem similarity_in_unit_interval:
  assumes "\<forall>a b. 0 \<le> cmp a b \<and> cmp a b \<le> 1"
    and "\<forall>g w. global cfg = Some g \<and> titleWeight g = Some w \<longrightarrow> 0 \<le> w \<and> w \<le> 100"
  shows "(\<forall>m \<in> set (scored cmp cfg q author combined).
            0 \<le> similarity m \<and> similarity m \<le> 1
            \<and> 0 \<le> adjustedSimilarity m \<and> adjustedSimilarity m \<le> 1)"
proof
  fix m assume "m \<in> set (scored cmp cfg q author combined)"
  then obtain m0 where "m = m0\<lparr>similarity := combinedSimilarity cmp cfg q author m0\<rparr>"
    by (auto simp: scored_def)
  then have s: "0 \<le> similarity m \<and> similarity m \<le> 1"
    using combinedSimilarity_unit[OF assms] by simp
  then show "0 \<le> similarity m \<and> similarity m \<le> 1
            \<and> 0 \<le> adjustedSimilarity m \<and> adjustedSimilarity m \<le> 1"
    by (auto simp: adjustedSimilarity_def)
qed

lemma exact_match_unit: "\<forall>a b. 0 \<le> exact_match a b \<and> exact_match a b \<le> 1"
  by (simp add: exact_match_def)

lemma cfg60_weight:
  "\<forall>g w. global cfg60 = Some g \<and> titleWeight g = Some w \<longrightarrow> 0 \<le> w \<and> w \<le> 100"
  by (auto simp: cfg60_def)

lemma foundation_score:
  "combinedSimilarity exact_match cfg60 ''Foundation'' (Some ''Asimov'') foundation = 1"
proof -
  have a: "cleanedAuthor (Some ''Asimov'') = ''asimov''" by code_simp
  have q: "cleanedQuery ''Foundation'' = ''foundation''" by code_simp
  have l: "toLowerCase ''Foundation'' = ''foundation''"
     "toLowerCase ''Isaac Asimov'' = ''isaac asimov''"  "toLowerCase ''asimov'' = ''asimov''" by code_simp+
  show ?thesis
    by (simp add: combinedSimilarity_def titleSimilarity_def foundation_def blank_def a q l
         exact_match_def Math_max_def titleWeightFraction_def authorWeight_def cfg60_def)
qed

text \<open>The hypotheses of C3 hold for the exact-match metric and a weight of 60.\<close>

theorem similarity_in_unit_interval_witness:
  "scored exact_match cfg60 ''Foundation'' (Some ''Asimov'') [foundation]
       = [foundation\<lparr>similarity := 1\<rparr>]
   \<and> 0 \<le> similarity (foundation\<lparr>similarity := 1\<rparr>)
   \<and> similarity (foundation\<lparr>similarity := 1\<rparr>) \<le> 1
   \<and> 0 \<le> adjustedSimilarity (foundation\<lparr>similarity := 1\<rparr>)
   \<and> adjustedSimilarity (foundation\<lparr>similarity := 1\<rparr>) \<le> 1
   \<and> adjustedSimilarity (foundation\<lparr>similarity := 1\<rparr>) = 99 / 100"
proof -
  have s: "scored exact_match cfg60 ''Foundation'' (Some ''Asimov'') [foundation]
       = [foundation\<lparr>similarity := 1\<rparr>]"
    by (simp add: scored_def foundation_score)
  have adj: "adjustedSimilarity (foundation\<lparr>similarity := 1\<rparr>) = 99 / 100"
    by (simp add: adjustedSimilarity_def lookup_def truthy_def foundation_def blank_def)
  have "\<forall>m \<in> set (scored exact_match cfg60 ''Foundation'' (Some ''Asimov'') [foundation]).
            0 \<le> similarity m \<and> similarity m \<le> 1
            \<and> 0 \<le> adjustedSimilarity m \<and> adjustedSimilarity m \<le> 1"
    by (rule similarity_in_unit_interval[OF exact_match_unit cfg60_weight])
  then have "0 \<le> similarity (foundation\<lparr>similarity := 1\<rparr>)
      \<and> similarity (foundation\<lparr>similarity := 1\<rparr>) \<le> 1
      \<and> 0 \<le> adjustedSimilarity (foundation\<lparr>similarity := 1\<rparr>)
      \<and> adjustedSimilarity (foundation\<lparr>similarity := 1\<rparr>) \<le> 1"
    unfolding s by simp
  then show ?thesis using s adj by blast
qed

subsection \<open>Sorting and ranking\<close>

lemma insertBy_insort_key:
  assumes "\<And>x y. c x y \<le> 0 \<longleftrightarrow> key x \<le> key y"
  shows "insertBy c x ys = insort_key key x ys"
  by (induction ys) (simp_all add: assms)

lemma sortBy_sort_key:
  assumes "\<And>x y. c x y \<le> 0 \<longleftrightarrow> key x \<le> (key y :: 'k :: linorder)"
  shows "sortBy c xs = sort_key key xs"
  by (induction xs) (simp_all add: sortBy_def insertBy_insort_key[OF assms])



lemma rankCmp_key: "rankCmp x y \<le> 0 \<longleftrightarrow> rankKey x \<le> rankKey y"
  by (auto simp: rankCmp_def rankKey_def less_eq_prod_def)

lemma rankCmp_zero: "rankCmp x y = 0 \<longleftrightarrow> rankKey x = rankKey y"
  by (auto simp: rankCmp_def rankKey_def)

lemma rank_sort_key: "rank xs = sort_key rankKey xs"
  unfolding rank_def by (rule sortBy_sort_key) (rule rankCmp_key)

lemma sorted_wrt_map_key:
  "sorted (map key xs) \<longleftrightarrow> sorted_wrt (\<lambda>a b. key a \<le> key b) xs"
  by (simp add: sorted_wrt_map)

text \<open>
  Claim C7, as amended. Ranking is the stable sort by the three-key comparator
  (similarity descending, audiobook before book, provider priority descending): the output
  is a permutation of the input and is ordered by the comparator; results that the
  comparator does not separate keep their input order. For two inputs that are
  permutations of each other the outputs carry the same sequence of keys, and they are the
  same sequence of results when no two distinct results share all three keys.
\<close>

theorem rank_stable_sort:
  "mset (rank xs) = mset xs
   \<and> sorted_wrt (\<lambda>a b. rankCmp a b \<le> 0) (rank xs)
   \<and> (\<forall>x. filter (\<lambda>y. rankCmp x y = 0) (rank xs) = filter (\<lambda>y. rankCmp x y = 0) xs)
   \<and> (mset ys = mset xs \<longrightarrow> map rankKey (rank ys) = map rankKey (rank xs))
   \<and> (mset ys = mset xs \<and> inj_on rankKey (set xs) \<longrightarrow> rank ys = rank xs)"
proof (intro conjI allI impI)
  show "mset (rank xs) = mset xs" by (simp add: rank_sort_key)
  have "sorted (map rankKey (sort_key rankKey xs))" by (rule sorted_sort_key)
  then show "sorted_wrt (\<lambda>a b. rankCmp a b \<le> 0) (rank xs)"
    by (simp add: rank_sort_key rankCmp_key sorted_wrt_map_key)
  show "filter (\<lambda>y. rankCmp x y = 0) (rank xs) = filter (\<lambda>y. rankCmp x y = 0) xs" for x
  proof -
    have "(\<lambda>y. rankCmp x y = 0) = (\<lambda>y. rankKey y = rankKey x)"
      by (auto simp: rankCmp_zero)
    then show ?thesis by (simp add: rank_sort_key sort_key_stable)
  qed
  show keys: "map rankKey (rank ys) = map rankKey (rank xs)" if p: "mset ys = mset xs"
  proof -
    have "map rankKey (sort_key rankKey zs) = sort (map rankKey zs)" for zs
      by (rule properties_for_sort[symmetric]) simp_all
    moreover have "sort (map rankKey ys) = sort (map rankKey xs)"
    proof -
      have "mset (map rankKey ys) = mset (map rankKey xs)" using p by (metis mset_map)
      then show ?thesis by (metis sorted_list_of_multiset_mset)
    qed
    ultimately show ?thesis by (simp add: rank_sort_key)
  qed
  show "rank ys = rank xs" if p: "mset ys = mset xs \<and> inj_on rankKey (set xs)"
  proof -
    have k: "map rankKey (rank ys) = map rankKey (rank xs)" using p keys by simp
    have "set ys = set xs" using p by (metis set_mset_mset)
    then have "inj_on rankKey (set (rank ys) \<union> set (rank xs))"
      using p by (simp add: rank_sort_key)
    then show ?thesis using k by (simp add: inj_on_map_eq_map)
  qed
qed

text \<open>
  The claim as stated fails: two results with equal similarity, type and priority come out
  in their input order, so a reordered input gives a reordered output.
\<close>

theorem rank_order_counterexample:
  "mset [itemA, itemB] = mset [itemB, itemA] \<and> rank [itemA, itemB] \<noteq> rank [itemB, itemA]"
  by (simp add: rank_def sortBy_def rankCmp_def itemA_def itemB_def blank_def audioFlag_def
        isAudio_def priorityOf_def add.commute)

lemma rank_low_A: "rank [itemLow, itemA] = [itemA, itemLow]"
  by (simp add: rank_def sortBy_def rankCmp_def itemA_def itemLow_def blank_def)

text \<open>Two results with different similarity are ranked the same from either order.\<close>

theorem rank_stable_sort_witness:
  "rank [itemA, itemLow] = rank [itemLow, itemA] \<and> rank [itemLow, itemA] = [itemA, itemLow]
   \<and> mset (rank [itemLow, itemA]) = mset [itemLow, itemA]"
proof -
  have m: "mset [itemA, itemLow] = mset [itemLow, itemA]" by (simp add: add.commute)
  have i: "inj_on rankKey (set [itemLow, itemA])"
    by (simp add: rankKey_def itemA_def itemLow_def blank_def)
  from rank_stable_sort[of "[itemLow, itemA]" "[itemA, itemLow]"] m i
  show ?thesis by (simp add: rank_low_A)
qed

subsection \<open>Selection\<close>






















subsection \<open>Reading properties\<close>

lemma getProp_simps:
  "getProp i ''title'' = strV (title i)"
  "getProp i ''subtitle'' = strV (subtitle i)"
  "getProp i ''authors'' = arrV (authors i)"
  "getProp i ''narrator'' = strV (narrator i)"
  "getProp i ''description'' = strV (description i)"
  "getProp i ''cover'' = strV (cover i)"
  "getProp i ''type'' = strV (item_type i)"
  "getProp i ''url'' = strV (url i)"
  "getProp i ''id'' = strV (item_id i)"
  "getProp i ''languages'' = arrV (languages i)"
  "getProp i ''publisher'' = strV (publisher i)"
  "getProp i ''publishedDate'' = strV (publishedDate i)"
  "getProp i ''series'' = series i"
  "getProp i ''genres'' = arrV (genres i)"
  "getProp i ''tags'' = arrV (tags i)"
  "getProp i ''identifiers'' = objV (identifiers i)"
  "getProp i ''source'' = objV (source i)"
  "getProp i ''rating'' = numV (rating i)"
  "getProp i ''duration'' = numV (duration i)"
  "getProp i ''language'' = strV (language i)"
  by (simp_all add: getProp_def)





lemma buildMerged_sel:
  "title (buildMerged prefs fr)
     = Some (asStr (fst (pickFieldAndSource prefs (sortedGroup (topGroup fr)) ''title'')))"
  "authors (buildMerged prefs fr)
     = Some (asList (fst (pickFieldAndSource prefs (sortedGroup (topGroup fr)) ''authors'')))"
  "narrator (buildMerged prefs fr)
     = Some (asStr (fst (pickFieldAndSource prefs (sortedGroup (topGroup fr)) ''narrator'')))"
  "description (buildMerged prefs fr)
     = Some (asStr (fst (pickFieldAndSource prefs (sortedGroup (topGroup fr)) ''description'')))"
  "cover (buildMerged prefs fr) = truthyStr (fst (coverPick prefs (sortedGroup (topGroup fr))))"
  "languages (buildMerged prefs fr) = Some (langsUnion (sortedGroup (topGroup fr)))"
  "genres (buildMerged prefs fr)
     = Some (pickListPrefOrUnion prefs (sortedGroup (topGroup fr)) ''genres'' genres)"
  "tags (buildMerged prefs fr)
     = Some (pickListPrefOrUnion prefs (sortedGroup (topGroup fr)) ''tags'' tags)"
  "identifiers (buildMerged prefs fr) = Some (mergeIdentifiers (sortedGroup (topGroup fr)))"
  "provider (buildMerged prefs fr) = ''merged''"
  "mergedFrom (buildMerged prefs fr) = Some (mergedFromOf (topGroup fr))"
  by (simp_all add: buildMerged_def Let_def)

lemma topHasAllMergedFields_iff:
  "topHasAllMergedFields top0 merged \<longleftrightarrow>
     (truthy (narrator merged) \<longrightarrow> truthy (narrator top0))
     \<and> (truthy (description merged) \<longrightarrow> truthy (description top0))
     \<and> (truthy (cover merged) \<longrightarrow> truthy (cover top0))
     \<and> (nonEmptyList (languages merged) \<longrightarrow> nonEmptyList (languages top0))
     \<and> (identifiers merged \<noteq> None \<longrightarrow> nonEmptyList (identifiers top0))
     \<and> (nonEmptyList (genres merged) \<longrightarrow> nonEmptyList (genres top0))
     \<and> (nonEmptyList (tags merged) \<longrightarrow> nonEmptyList (tags top0))"
proof -
  have s: "topHasField top0 merged f = (truthy v \<longrightarrow> truthy w)"
    if "getProp merged f = strV v" "getProp top0 f = strV w" "f \<noteq> ''identifiers''" for f v w
    using that by (simp add: topHasField_def isArray_def strV_def truthy_def split: option.splits)
  have a: "topHasField top0 merged f = (nonEmptyList v \<longrightarrow> nonEmptyList w)"
    if "getProp merged f = arrV v" "getProp top0 f = arrV w" for f v w
    using that
    by (auto simp: topHasField_def isArray_def arrV_def nonEmptyList_def
          split: option.splits list.splits)
  have i: "topHasField top0 merged ''identifiers''
             = (identifiers merged \<noteq> None \<longrightarrow> nonEmptyList (identifiers top0))"
    by (auto simp: topHasField_def isArray_def objV_def nonEmptyList_def getProp_simps
          split: option.splits list.splits)
  have n: "topHasField top0 merged ''narrator'' = (truthy (narrator merged) \<longrightarrow> truthy (narrator top0))"
    by (rule s) (simp_all add: getProp_simps)
  have d: "topHasField top0 merged ''description''
      = (truthy (description merged) \<longrightarrow> truthy (description top0))"
    by (rule s) (simp_all add: getProp_simps)
  have c: "topHasField top0 merged ''cover'' = (truthy (cover merged) \<longrightarrow> truthy (cover top0))"
    by (rule s) (simp_all add: getProp_simps)
  have l: "topHasField top0 merged ''languages''
      = (nonEmptyList (languages merged) \<longrightarrow> nonEmptyList (languages top0))"
    by (rule a) (simp_all add: getProp_simps)
  have g: "topHasField top0 merged ''genres''
      = (nonEmptyList (genres merged) \<longrightarrow> nonEmptyList (genres top0))"
    by (rule a) (simp_all add: getProp_simps)
  have t: "topHasField top0 merged ''tags''
      = (nonEmptyList (tags merged) \<longrightarrow> nonEmptyList (tags top0))"
    by (rule a) (simp_all add: getProp_simps)
  show ?thesis
    by (simp only: topHasAllMergedFields_def mergedFields_def list.pred_inject n d c l i g t simp_thms)
qed

lemma selA:
  "title fullA = Some ''Foundation''" "authors fullA = Some [''Isaac Asimov'']"
  "narrator fullA = Some ''N''" "description fullA = Some ''D''" "cover fullA = Some ''c.jpg''"
  "languages fullA = Some [''pl'']" "genres fullA = Some [''sf'']" "tags fullA = Some [''classic'']"
  "identifiers fullA = None" "item_id fullA = Some ''1''" "alt_id fullA = None"
  "provider fullA = ''A''" "providerPriority fullA = Some 10" "similarity fullA = 95 / 100"
  "item_type fullA = None" "item_format fullA = None"
  by (simp_all add: fullA_def blank_def)

lemma selB:
  "title fullB = Some ''Foundation''" "authors fullB = Some [''Isaac Asimov'']"
  "narrator fullB = Some ''N''" "description fullB = Some ''D''" "cover fullB = Some ''c.jpg''"
  "languages fullB = Some [''pl'']" "genres fullB = Some [''sf'']" "tags fullB = Some [''classic'']"
  "identifiers fullB = None" "item_id fullB = Some ''2''" "alt_id fullB = None"
  "provider fullB = ''B''" "providerPriority fullB = Some 5" "similarity fullB = 95 / 100"
  "item_type fullB = None" "item_format fullB = None"
  by (simp_all add: fullB_def fullA_def blank_def)

lemma rank_AB: "rank [fullA, fullB] = [fullA, fullB]"
  by (simp add: rank_def sortBy_def rankCmp_def selA selB audioFlag_def
        isAudio_def priorityOf_def truthy_def)

lemma topGroup_AB: "topGroup [fullA, fullB] = [fullA, fullB]"
  by (simp add: EPS_def selA selB)

lemma sortedGroup_AB: "sortedGroup [fullA, fullB] = [fullA, fullB]"
  by (simp add: sortedGroup_def sortBy_def sortedGroupCmp_def priorityOf_def selA selB)

lemma merged_AB_identifiers:
  "identifiers (buildMerged (prefsOf cfgMerge) [fullA, fullB]) = Some []"
  by (simp add: buildMerged_sel topGroup_AB sortedGroup_AB mergeIdentifiers_def selA selB
        del: topGroup.simps)

lemma merged_AB_same:
  "sameTitleAuthors fullA (buildMerged (prefsOf cfgMerge) [fullA, fullB])"
  by (simp add: sameTitleAuthors_def buildMerged_sel topGroup_AB sortedGroup_AB
        pickFieldAndSource_def preferredMember_def prefsOf_def cfgMerge_def truthy_def
        hasField_def getFieldValue_def getProp_simps strV_def arrV_def asStr_def asList_def selA selB
        del: topGroup.simps)

lemma matches_AB:
  "matches cfgMerge [fullA, fullB] = buildMerged (prefsOf cfgMerge) [fullA, fullB] # [fullA, fullB]"
proof -
  have "\<not> topHasAllMergedFields fullA (buildMerged (prefsOf cfgMerge) [fullA, fullB])"
    by (simp add: topHasAllMergedFields_iff merged_AB_identifiers nonEmptyList_def selA)
  then show ?thesis
    by (simp add: matches_def rank_AB mergeBest_def mergeEnabled_def topGroup_AB Let_def
          cfgMerge_def[THEN arg_cong, of global] del: topGroup.simps)
qed

subsection \<open>When a merged result is produced\<close>

lemma mergeBest_cases:
  "mergeBest cfg fr = fr
   \<or> (mergeBest cfg fr = buildMerged (prefsOf cfg) fr # fr \<and> mergeEnabled cfg
       \<and> 1 < length (topGroup fr))"
  by (simp add: mergeBest_def Let_def del: topGroup.simps)

lemma mergeBest_no_tie:
  "\<not> mergeEnabled cfg \<or> length (topGroup fr) < 2 \<Longrightarrow> mergeBest cfg fr = fr"
  by (auto simp: mergeBest_def Let_def simp del: topGroup.simps)

lemma rank_hd_max:
  assumes "full \<noteq> []"
  shows "similarity (hd (rank full)) = Max (similarity ` set full)"
proof -
  obtain x xs where r: "rank full = x # xs"
    using assms by (cases "rank full") (auto simp: rank_sort_key dest: arg_cong[where f=length])
  have "sorted (map rankKey (rank full))" by (simp add: rank_sort_key)
  then have "\<forall>y \<in> set xs. rankKey x \<le> rankKey y" by (simp add: r)
  then have le: "\<forall>y \<in> set xs. similarity y \<le> similarity x"
    by (auto simp: rankKey_def less_eq_prod_def)
  have s: "set full = insert x (set xs)"
    using r by (metis list.simps(15) rank_sort_key set_sort)
  have "Max (similarity ` set full) = similarity x"
    by (rule Max_eqI) (use le s in auto)
  then show ?thesis by (simp add: r)
qed

lemma topGroup_length:
  "length (topGroup (rank full))
     = length (filter (\<lambda>r. \<bar>similarity r - Max (similarity ` set full)\<bar> \<le> EPS) full)"
proof (cases "full = []")
  case True
  then show ?thesis by (simp add: rank_def sortBy_def)
next
  case False
  let ?P = "\<lambda>r. \<bar>similarity r - Max (similarity ` set full)\<bar> \<le> EPS"
  obtain x xs where r: "rank full = x # xs"
    using False by (cases "rank full") (auto simp: rank_sort_key dest: arg_cong[where f=length])
  have "similarity x = Max (similarity ` set full)" using rank_hd_max[OF False] r by simp
  then have "topGroup (rank full) = filter ?P (rank full)" by (simp add: r)
  moreover have "mset (filter ?P (rank full)) = mset (filter ?P full)"
    by (simp add: rank_sort_key)
  ultimately show ?thesis by (metis size_mset)
qed

text \<open>
  Claim C4. If merging is disabled, or fewer than two results have a similarity within
  \<open>10\<^sup>-\<^sup>6\<close> of the maximum, the response is the ranked list itself; in every case the response
  is the ranked list or the ranked list with one record of provider \<open>merged\<close> in front. So
  when no provider is itself called \<open>merged\<close>, the response holds at most one merged record,
  and none without a tie at the top.
\<close>

theorem merged_only_on_top_tie:
  "((\<not> mergeEnabled cfg
      \<or> length (filter (\<lambda>r. \<bar>similarity r - Max (similarity ` set full)\<bar> \<le> EPS) full) < 2)
     \<longrightarrow> matches cfg full = rank full)
   \<and> (matches cfg full = rank full
       \<or> (\<exists>m. matches cfg full = m # rank full \<and> provider m = ''merged''))
   \<and> ((\<forall>r \<in> set full. provider r \<noteq> ''merged'') \<longrightarrow>
        length (filter (\<lambda>r. provider r = ''merged'') (matches cfg full)) \<le> 1
        \<and> ((\<not> mergeEnabled cfg
             \<or> length (filter (\<lambda>r. \<bar>similarity r - Max (similarity ` set full)\<bar> \<le> EPS) full) < 2)
            \<longrightarrow> (\<forall>r \<in> set (matches cfg full). provider r \<noteq> ''merged'')))"
proof -
  let ?ties = "length (filter (\<lambda>r. \<bar>similarity r - Max (similarity ` set full)\<bar> \<le> EPS) full)"
  have a: "matches cfg full = rank full" if "\<not> mergeEnabled cfg \<or> ?ties < 2"
    using that mergeBest_no_tie[of cfg "rank full"] by (simp add: matches_def topGroup_length)
  have b: "matches cfg full = rank full
       \<or> (\<exists>m. matches cfg full = m # rank full \<and> provider m = ''merged'')"
    using mergeBest_cases[of cfg "rank full"] by (auto simp: matches_def buildMerged_sel)
  have c: "filter (\<lambda>r. provider r = ''merged'') (rank full) = []"
    if "\<forall>r \<in> set full. provider r \<noteq> ''merged''"
    using that by (simp add: filter_empty_conv rank_sort_key)
  have d: "length (filter (\<lambda>r. provider r = ''merged'') (matches cfg full)) \<le> 1"
    if "\<forall>r \<in> set full. provider r \<noteq> ''merged''"
    using b c[OF that] by auto
  have e: "\<forall>r \<in> set (matches cfg full). provider r \<noteq> ''merged''"
    if "\<forall>r \<in> set full. provider r \<noteq> ''merged''" "\<not> mergeEnabled cfg \<or> ?ties < 2"
    using that a by (simp add: rank_sort_key)
  show ?thesis using a b d e by blast
qed

text \<open>One result at the top, another far below: nothing is merged.\<close>

theorem merged_only_on_top_tie_witness:
  "matches cfgMerge [itemLow, itemA] = [itemA, itemLow]
   \<and> length (filter (\<lambda>r. provider r = ''merged'') (matches cfgMerge [itemLow, itemA])) = 0"
proof -
  have mx: "Max (similarity ` set [itemLow, itemA]) = 9 / 10"
    by (simp add: itemLow_def itemA_def blank_def)
  have t: "length (filter (\<lambda>r. \<bar>similarity r - Max (similarity ` set [itemLow, itemA])\<bar> \<le> EPS)
             [itemLow, itemA]) < 2"
    unfolding mx by (simp add: EPS_def itemLow_def itemA_def blank_def)
  have p: "\<forall>r \<in> set [itemLow, itemA]. provider r \<noteq> ''merged''"
    by (simp add: itemLow_def itemA_def blank_def)
  from merged_only_on_top_tie[of cfgMerge "[itemLow, itemA]"] t p
  have "matches cfgMerge [itemLow, itemA] = rank [itemLow, itemA]"
    and "\<forall>r \<in> set (matches cfgMerge [itemLow, itemA]). provider r \<noteq> ''merged''"
    by blast+
  then show ?thesis by (simp add: rank_low_A filter_empty_conv)
qed

subsection \<open>Provenance of the merged result\<close>









subsection \<open>Redundancy suppression\<close>

text \<open>
  Claim C6 at a failing input. The tied results of providers A and B agree in title and
  authors, and the top result A has a narrator, a description, a cover, languages, genres
  and tags; neither has identifiers, so the merge contributes none. The merged record's
  \<open>identifiers\<close> is the empty object, which is truthy, the test asks the top result for
  identifiers of its own, and the merged record is put in front although it adds nothing.
\<close>

theorem redundant_merged_still_prepended:
  "map provider (matches cfgMerge [fullA, fullB]) = [''merged'', ''A'', ''B'']
   \<and> hd (rank [fullA, fullB]) = fullA
   \<and> sameTitleAuthors fullA (buildMerged (prefsOf cfgMerge) [fullA, fullB])
   \<and> identifiers (buildMerged (prefsOf cfgMerge) [fullA, fullB]) = Some []
   \<and> truthy (narrator fullA) \<and> truthy (description fullA) \<and> truthy (cover fullA)
   \<and> nonEmptyList (languages fullA) \<and> nonEmptyList (genres fullA) \<and> nonEmptyList (tags fullA)"
proof (intro conjI)
  show "map provider (matches cfgMerge [fullA, fullB]) = [''merged'', ''A'', ''B'']"
    by (simp add: matches_AB buildMerged_sel selA selB)
  show "hd (rank [fullA, fullB]) = fullA" by (simp add: rank_AB)
  show "sameTitleAuthors fullA (buildMerged (prefsOf cfgMerge) [fullA, fullB])"
    by (rule merged_AB_same)
  show "identifiers (buildMerged (prefsOf cfgMerge) [fullA, fullB]) = Some []"
    by (rule merged_AB_identifiers)
qed (simp_all add: truthy_def nonEmptyList_def selA)

subsection \<open>Field resolution\<close>
















lemma find_Some_mem: "find P xs = Some x \<Longrightarrow> x \<in> set xs"
  by (induction xs) (auto split: if_splits)

lemma designated_mem: "designated prefs f has sg = Some p \<Longrightarrow> p \<in> set sg"
  by (auto simp: designated_def dest: find_Some_mem split: if_splits)


















































subsection \<open>The worker pool\<close>

lemma spawned:
  "j \<le> n \<Longrightarrow>
     (spawn n ^^ j) \<lparr>next_i = 0, results = rs, workers = [], calls = []\<rparr>
       = \<lparr>next_i = j, results = rs, workers = map Awaiting [0..<j], calls = [0..<j]\<rparr>"
  by (induction j) (simp_all add: spawn_def grab_def Let_def)

lemma start_eq:
  "start items limit =
     \<lparr>next_i = min limit (length items), results = replicate (length items) Hole,
      workers = map Awaiting [0..<min limit (length items)],
      calls = [0..<min limit (length items)]\<rparr>"
  unfolding start_def by (rule spawned) simp

lemma store_not_Hole: "store f x \<noteq> Hole"
  by (simp add: store_def split: outcome.splits)

lemma pool_inv_spawned:
  assumes "k \<le> length items"
  shows "pool_inv f items
           \<lparr>next_i = k, results = replicate (length items) Hole,
            workers = map Awaiting [0..<k], calls = [0..<k]\<rparr>"
  unfolding pool_inv_def pool.select_convs
proof (intro conjI)
  show "length (replicate (length items) (Hole :: 'b slot)) = length items" by simp
  show "\<forall>w<length (map Awaiting [0..<k]). \<forall>idx. map Awaiting [0..<k] ! w = Awaiting idx
          \<longrightarrow> idx < length items \<and> idx < k"
    using assms by auto
  show "\<forall>idx<length items.
       replicate (length items) Hole ! idx = store f (items ! idx) \<or>
       replicate (length items) Hole ! idx = Hole \<and>
       (k \<le> idx \<or> (\<exists>w<length (map Awaiting [0..<k]). map Awaiting [0..<k] ! w = Awaiting idx))"
  proof (intro allI impI)
    fix idx assume "idx < length items"
    moreover have "k \<le> idx \<or> (\<exists>w<length (map Awaiting [0..<k]). map Awaiting [0..<k] ! w = Awaiting idx)"
      by (cases "idx < k") auto
    ultimately show "replicate (length items) Hole ! idx = store f (items ! idx) \<or>
       replicate (length items) Hole ! idx = Hole \<and>
       (k \<le> idx \<or> (\<exists>w<length (map Awaiting [0..<k]). map Awaiting [0..<k] ! w = Awaiting idx))"
      by simp
  qed
  show "(\<exists>w<length (map Awaiting [0..<k]). map Awaiting [0..<k] ! w = Finished)
          \<longrightarrow> length items \<le> k"
    by auto
  show "[0..<k] = [0..<min k (length items)]" using assms by (simp add: min_def)
qed

lemma pool_inv_start: "pool_inv f items (start items limit)"
  unfolding start_eq by (rule pool_inv_spawned) simp

lemma settle_idle:
  "\<not> w < length (workers s) \<or> workers s ! w = Finished \<Longrightarrow> settle f items w s = s"
  by (auto simp: settle_def)

lemma settle_awaiting:
  assumes "w < length (workers s)" "workers s ! w = Awaiting idx"
  shows "settle f items w s =
     (if length items \<le> next_i s
      then s\<lparr>results := (results s)[idx := store f (items ! idx)],
             next_i := next_i s + 1, workers := (workers s)[w := Finished]\<rparr>
      else s\<lparr>results := (results s)[idx := store f (items ! idx)],
             next_i := next_i s + 1, calls := calls s @ [next_i s],
             workers := (workers s)[w := Awaiting (next_i s)]\<rparr>)"
  using assms by (simp add: settle_def grab_def Let_def)

lemma pool_inv_settle:
  assumes inv: "pool_inv f items s"
  shows "pool_inv f items (settle f items w s)"
proof (cases "w < length (workers s) \<and> workers s ! w \<noteq> Finished")
  case False
  then show ?thesis using inv by (simp add: settle_idle)
next
  case True
  then obtain idx where aw: "w < length (workers s)" "workers s ! w = Awaiting idx"
    by (cases "workers s ! w") auto
  have idx: "idx < length items" "idx < next_i s" using inv aw by (auto simp: pool_inv_def)
  have len: "length (results s) = length items" using inv by (simp add: pool_inv_def)
  have others: "\<And>w' j. w' < length (workers s) \<Longrightarrow> workers s ! w' = Awaiting j
                  \<Longrightarrow> j < length items \<and> j < next_i s"
    using inv by (auto simp: pool_inv_def)
  have slots: "\<And>j. j < length items \<Longrightarrow>
        results s ! j = store f (items ! j)
        \<or> (results s ! j = Hole
            \<and> (next_i s \<le> j \<or> (\<exists>w' < length (workers s). workers s ! w' = Awaiting j)))"
    using inv by (auto simp: pool_inv_def)
  have fin: "(\<exists>w' < length (workers s). workers s ! w' = Finished) \<Longrightarrow> length items \<le> next_i s"
    using inv by (auto simp: pool_inv_def)
  have cl: "calls s = [0 ..< min (next_i s) (length items)]"
    using inv by (simp add: pool_inv_def)
  show ?thesis
  proof (cases "length items \<le> next_i s")
    case True
    let ?s' = "s\<lparr>results := (results s)[idx := store f (items ! idx)],
             next_i := next_i s + 1, workers := (workers s)[w := Finished]\<rparr>"
    have eq: "settle f items w s = ?s'" using settle_awaiting[OF aw, of f items] True by simp
    have a: "\<forall>w' < length (workers ?s'). \<forall>j. workers ?s' ! w' = Awaiting j
               \<longrightarrow> j < length items \<and> j < next_i ?s'"
    proof (intro allI impI)
      fix w' j assume h: "w' < length (workers ?s')" "workers ?s' ! w' = Awaiting j"
      then have "w' \<noteq> w" using aw by auto
      then have "workers s ! w' = Awaiting j" using h by simp
      then show "j < length items \<and> j < next_i ?s'" using others[of w' j] h by simp
    qed
    have b: "\<forall>j < length items. results ?s' ! j = store f (items ! j)
            \<or> (results ?s' ! j = Hole
                \<and> (next_i ?s' \<le> j \<or> (\<exists>w' < length (workers ?s'). workers ?s' ! w' = Awaiting j)))"
    proof (intro allI impI)
      fix j assume j: "j < length items"
      show "results ?s' ! j = store f (items ! j)
            \<or> (results ?s' ! j = Hole
                \<and> (next_i ?s' \<le> j \<or> (\<exists>w' < length (workers ?s'). workers ?s' ! w' = Awaiting j)))"
      proof (cases "j = idx")
        case True
        then show ?thesis using idx len by simp
      next
        case False
        from slots[OF j] show ?thesis
        proof
          assume "results s ! j = store f (items ! j)"
          then show ?thesis using False by simp
        next
          assume h: "results s ! j = Hole
            \<and> (next_i s \<le> j \<or> (\<exists>w' < length (workers s). workers s ! w' = Awaiting j))"
          then obtain w' where w': "w' < length (workers s)" "workers s ! w' = Awaiting j"
            using True j by auto
          then have "w' \<noteq> w" using aw False by auto
          then have "w' < length (workers ?s') \<and> workers ?s' ! w' = Awaiting j" using w' by simp
          then show ?thesis using h False by auto
        qed
      qed
    qed
    have c: "(\<exists>w' < length (workers ?s'). workers ?s' ! w' = Finished)
               \<longrightarrow> length items \<le> next_i ?s'"
      using True by simp
    have d: "calls ?s' = [0 ..< min (next_i ?s') (length items)]"
      using cl True by (simp add: min_def)
    have l: "length (results ?s') = length items" using len by simp
    have "pool_inv f items ?s'"
      unfolding pool_inv_def by (intro conjI l a b c d)
    then show ?thesis by (simp add: eq)
  next
    case False
    let ?s' = "s\<lparr>results := (results s)[idx := store f (items ! idx)],
             next_i := next_i s + 1, calls := calls s @ [next_i s],
             workers := (workers s)[w := Awaiting (next_i s)]\<rparr>"
    have eq: "settle f items w s = ?s'" using settle_awaiting[OF aw, of f items] False by simp
    have nofin: "\<And>w'. w' < length (workers s) \<Longrightarrow> workers s ! w' \<noteq> Finished"
      using fin False by auto
    have a: "\<forall>w' < length (workers ?s'). \<forall>j. workers ?s' ! w' = Awaiting j
               \<longrightarrow> j < length items \<and> j < next_i ?s'"
    proof (intro allI impI)
      fix w' j assume h: "w' < length (workers ?s')" "workers ?s' ! w' = Awaiting j"
      show "j < length items \<and> j < next_i ?s'"
      proof (cases "w' = w")
        case True
        then have "j = next_i s" using h aw by simp
        then show ?thesis using False by simp
      next
        case False
        then have "workers s ! w' = Awaiting j" using h by simp
        then show ?thesis using others[of w' j] h by simp
      qed
    qed
    have b: "\<forall>j < length items. results ?s' ! j = store f (items ! j)
            \<or> (results ?s' ! j = Hole
                \<and> (next_i ?s' \<le> j \<or> (\<exists>w' < length (workers ?s'). workers ?s' ! w' = Awaiting j)))"
    proof (intro allI impI)
      fix j assume j: "j < length items"
      show "results ?s' ! j = store f (items ! j)
            \<or> (results ?s' ! j = Hole
                \<and> (next_i ?s' \<le> j \<or> (\<exists>w' < length (workers ?s'). workers ?s' ! w' = Awaiting j)))"
      proof (cases "j = idx")
        case True
        then show ?thesis using idx len by simp
      next
        case ne: False
        from slots[OF j] show ?thesis
        proof
          assume "results s ! j = store f (items ! j)"
          then show ?thesis using ne by simp
        next
          assume h: "results s ! j = Hole
            \<and> (next_i s \<le> j \<or> (\<exists>w' < length (workers s). workers s ! w' = Awaiting j))"
          then have hole: "results ?s' ! j = Hole" using ne by simp
          from h have "next_i s \<le> j \<or> (\<exists>w' < length (workers s). workers s ! w' = Awaiting j)"
            by simp
          then show ?thesis
          proof
            assume le: "next_i s \<le> j"
            show ?thesis
            proof (cases "j = next_i s")
              case True
              then have "w < length (workers ?s') \<and> workers ?s' ! w = Awaiting j"
                using aw by simp
              then show ?thesis using hole by blast
            next
              case False
              then have "next_i ?s' \<le> j" using le by simp
              then show ?thesis using hole by blast
            qed
          next
            assume "\<exists>w' < length (workers s). workers s ! w' = Awaiting j"
            then obtain w' where w': "w' < length (workers s)" "workers s ! w' = Awaiting j"
              by blast
            then have "w' \<noteq> w" using aw ne by auto
            then have "w' < length (workers ?s') \<and> workers ?s' ! w' = Awaiting j"
              using w' by simp
            then show ?thesis using hole by blast
          qed
        qed
      qed
    qed
    have nf: "\<not> (\<exists>w' < length (workers ?s'). workers ?s' ! w' = Finished)"
    proof
      assume "\<exists>w' < length (workers ?s'). workers ?s' ! w' = Finished"
      then obtain w' where w': "w' < length (workers ?s')" "workers ?s' ! w' = Finished" by blast
      then have "w' \<noteq> w" using aw by auto
      then show False using w' nofin[of w'] by simp
    qed
    have d: "calls ?s' = [0 ..< min (next_i ?s') (length items)]"
      using cl False by (simp add: min_def)
    have c: "(\<exists>w' < length (workers ?s'). workers ?s' ! w' = Finished)
               \<longrightarrow> length items \<le> next_i ?s'"
      using nf by blast
    have l: "length (results ?s') = length items" using len by simp
    have "pool_inv f items ?s'"
      unfolding pool_inv_def by (intro conjI l a b c d)
    then show ?thesis by (simp add: eq)
  qed
qed

lemma pool_inv_run: "pool_inv f items s \<Longrightarrow> pool_inv f items (run f items sched s)"
  by (induction sched arbitrary: s) (simp_all add: run_def pool_inv_settle)

lemma settle_workers: "length (workers (settle f items w s)) = length (workers s)"
  by (cases "w < length (workers s) \<and> workers s ! w \<noteq> Finished")
     (auto simp: settle_idle settle_def grab_def Let_def split: wstate.splits)

lemma run_workers: "length (workers (run f items sched s)) = length (workers s)"
  by (induction sched arbitrary: s) (simp_all add: run_def settle_workers)

lemma run_Cons: "run f items (w # sched) s = run f items sched (settle f items w s)"
  by (simp add: run_def)

lemma pool_final:
  assumes inv: "pool_inv f items s" and fin: "allFinished s"
    and k: "1 \<le> length (workers s) \<or> items = []"
  shows "results s = map (store f) items \<and> calls s = [0..<length items]"
proof (cases "items = []")
  case True
  then show ?thesis using inv by (simp add: pool_inv_def)
next
  case False
  then have w0: "0 < length (workers s)" using k by linarith
  have allfin: "\<And>w. w < length (workers s) \<Longrightarrow> workers s ! w = Finished"
    using fin by (simp add: allFinished_def list_all_length)
  then have "\<exists>w < length (workers s). workers s ! w = Finished" using w0 by blast
  then have nx: "length items \<le> next_i s" using inv by (simp add: pool_inv_def)
  have "results s ! idx = store f (items ! idx)" if "idx < length items" for idx
  proof -
    have "results s ! idx = store f (items ! idx)
            \<or> (results s ! idx = Hole
                \<and> (next_i s \<le> idx \<or> (\<exists>w < length (workers s). workers s ! w = Awaiting idx)))"
      using inv that by (simp add: pool_inv_def)
    then show ?thesis using nx that allfin by force
  qed
  moreover have "length (results s) = length items" using inv by (simp add: pool_inv_def)
  ultimately have "results s = map (store f) items" by (simp add: nth_equalityI)
  moreover have "calls s = [0..<length items]" using inv nx by (simp add: pool_inv_def min_def)
  ultimately show ?thesis by simp
qed

lemma filter_update_count:
  "w < length xs \<Longrightarrow>
     length (filter P (xs[w := y])) + (if P (xs ! w) then 1 else 0)
       = length (filter P xs) + (if P y then 1 else 0)"
proof (induction xs arbitrary: w)
  case Nil
  then show ?case by simp
next
  case (Cons x xs)
  then show ?case by (cases w) auto
qed

lemma potential_settle:
  assumes "w < length (workers s)" "workers s ! w = Awaiting idx"
  shows "potential (length items) (settle f items w s) < potential (length items) s"
proof (cases "length items \<le> next_i s")
  case True
  have "length (filter (\<lambda>w. w \<noteq> Finished) ((workers s)[w := Finished])) + 1
          = length (filter (\<lambda>w. w \<noteq> Finished) (workers s))"
    using filter_update_count[OF assms(1), of "\<lambda>w. w \<noteq> Finished" Finished] assms(2) by simp
  then show ?thesis
    using True by (simp add: settle_awaiting[OF assms, of f items] potential_def)
next
  case False
  have "length (filter (\<lambda>w. w \<noteq> Finished) ((workers s)[w := Awaiting (next_i s)]))
          = length (filter (\<lambda>w. w \<noteq> Finished) (workers s))"
    using filter_update_count[OF assms(1), of "\<lambda>w. w \<noteq> Finished" "Awaiting (next_i s)"] assms(2)
    by simp
  then show ?thesis
    using False by (simp add: settle_awaiting[OF assms, of f items] potential_def)
qed

lemma pool_drains: "\<exists>sched. allFinished (run f items sched s)"
proof (induction "potential (length items) s" arbitrary: s rule: less_induct)
  case less
  show ?case
  proof (cases "allFinished s")
    case True
    then have "allFinished (run f items [] s)" by (simp add: run_def)
    then show ?thesis by blast
  next
    case False
    then obtain w where w: "w < length (workers s)" "workers s ! w \<noteq> Finished"
      by (auto simp: allFinished_def list_all_length)
    then obtain idx where aw: "workers s ! w = Awaiting idx" by (cases "workers s ! w") auto
    from less[OF potential_settle[OF w(1) aw]]
    obtain sched where "allFinished (run f items sched (settle f items w s))" by blast
    then have "allFinished (run f items (w # sched) s)" by (simp add: run_Cons)
    then show ?thesis by blast
  qed
qed

lemma start_workers: "length (workers (start items limit)) = min limit (length items)"
  by (simp add: start_eq)

lemma mapWithConcurrency_Some:
  assumes "1 \<le> limit" "mapWithConcurrency sched items f limit = Some r"
  shows "r = map (store f) items" "iteratorCalls sched items f limit = [0..<length items]"
proof -
  let ?s = "run f items sched (start items limit)"
  have fin: "allFinished ?s" and r: "r = results ?s"
    using assms(2) by (auto simp: mapWithConcurrency_def Let_def split: if_splits)
  have inv: "pool_inv f items ?s" by (intro pool_inv_run pool_inv_start)
  have "1 \<le> length (workers ?s) \<or> items = []"
    using assms(1) by (cases items) (simp_all add: run_workers start_workers)
  from pool_final[OF inv fin this]
  show "r = map (store f) items" "iteratorCalls sched items f limit = [0..<length items]"
    by (simp_all add: r iteratorCalls_def)
qed

lemma mapWithConcurrency_returns:
  assumes "1 \<le> limit"
  shows "\<exists>sched. mapWithConcurrency sched items f limit = Some (map (store f) items)"
proof -
  obtain sched where fin: "allFinished (run f items sched (start items limit))"
    using pool_drains by blast
  then obtain r where r: "mapWithConcurrency sched items f limit = Some r"
    by (simp add: mapWithConcurrency_def Let_def)
  then show ?thesis using mapWithConcurrency_Some(1)[OF assms r] by blast
qed

text \<open>
  Claim C10. With a limit of at least 1, whatever the order in which the iterator's
  promises settle, the array that \<open>mapWithConcurrency\<close> returns has the length of the input
  and holds at index \<open>i\<close> the iterator's result for \<open>items[i]\<close>, or \<^verbatim>\<open>null\<close> if that call
  threw; the iterator is called exactly once on every index; so the result does not depend
  on the limit. And the pool does return: some order of settling ends it.
\<close>

theorem mapWithConcurrency_in_order:
  "1 \<le> limit \<longrightarrow>
     (\<forall>sched r. mapWithConcurrency sched items f limit = Some r \<longrightarrow>
        length r = length items
        \<and> (\<forall>i < length items.
              r ! i = (case f (items ! i) of Throws \<Rightarrow> Null | Returns v \<Rightarrow> Value v))
        \<and> r = map (store f) items
        \<and> iteratorCalls sched items f limit = [0 ..< length items])
     \<and> (\<exists>sched. mapWithConcurrency sched items f limit = Some (map (store f) items))"
proof (intro impI conjI allI)
  fix sched r
  assume l: "1 \<le> limit" and m: "mapWithConcurrency sched items f limit = Some r"
  note e = mapWithConcurrency_Some[OF l m]
  show "r = map (store f) items" by (rule e(1))
  show "iteratorCalls sched items f limit = [0 ..< length items]" by (rule e(2))
  show "length r = length items" by (simp add: e(1))
  show "r ! i = (case f (items ! i) of Throws \<Rightarrow> Null | Returns v \<Rightarrow> Value v)"
    if "i < length items" for i
    using that by (simp add: e(1) store_def)
next
  assume "1 \<le> limit"
  then show "\<exists>sched. mapWithConcurrency sched items f limit = Some (map (store f) items)"
    by (rule mapWithConcurrency_returns)
qed

lemma tenfold_run:
  "mapWithConcurrency [1, 0, 1] [1, 2, 3] tenfold 2 = Some [Value 10, Null, Value 30]"
  by code_simp

text \<open>Three items, two workers, the second call throws.\<close>

theorem mapWithConcurrency_in_order_witness:
  "mapWithConcurrency [1, 0, 1] [1, 2, 3] tenfold 2 = Some [Value 10, Null, Value 30]
   \<and> [Value 10, Null, Value 30] = map (store tenfold) [1, 2, 3]
   \<and> iteratorCalls [1, 0, 1] [1, 2, 3] tenfold 2 = [0, 1, 2]"
proof -
  have l: "(1::nat) \<le> 2" by simp
  from mapWithConcurrency_in_order[of 2 "[1, 2, 3]" tenfold] l tenfold_run
  have "[Value 10, Null, Value 30] = map (store tenfold) [1, 2, 3]"
    and "iteratorCalls [1, 0, 1] [1, 2, 3] tenfold 2 = [0 ..< length [1, 2, 3 :: nat]]"
    by blast+
  then show ?thesis using tenfold_run by (simp add: upt_rec)
qed

subsection \<open>Fetching full metadata\<close>
















end
